theory Spec2Isabelle
  imports Main
begin

section \<open>The document store of package dynamo (src/dynamo/doc.go)\<close>

text \<open>
  The Store of doc.go coordinates three backends: a DynamoDB client with a document table
  and a tag table, a FileStore \<open>s.fs\<close> holding the content of each document, and a
  TextIndex \<open>s.ti\<close>. The embedding keeps the backends in one record, passes it through
  every operation and returns it updated. A Go \<open>error\<close> result is \<open>error option\<close>
  (\<open>None\<close> is \<open>nil\<close>); a result with a value is \<open>error + 'a\<close>.
\<close>

subsection \<open>Data\<close>

text \<open>\<open>time.Time\<close>, as a number of nanoseconds.\<close>

type_synonym time = int

text \<open>
  Errors. \<open>NotFound\<close> is the does-not-exist error of package docshelf, \<open>Failure\<close> a
  backend's own error, \<open>New\<close> is \<open>errors.New\<close> and \<open>Wrap m e\<close> is
  \<open>errors.Wrap(e, m)\<close>.
\<close>

datatype error = NotFound | Failure string | New string | Wrap string error

text \<open>
  Modelled from the spec: the declaration of \<open>docshelf.Doc\<close> is not among the sources.
  The spec gives a Document the attributes path, content, createdAt and updatedAt; further
  metadata fields are the record's extension.
\<close>

record Doc =
  Path :: string
  Content :: string
  CreatedAt :: time
  UpdatedAt :: time

text \<open>
  A Go slice of strings is \<open>None\<close> when it is \<open>nil\<close>; \<open>elems\<close> gives what
  \<open>range\<close>, \<open>len\<close> and \<open>append\<close> see of it.
\<close>

type_synonym slice = "string list option"

fun elems :: "slice \<Rightarrow> string list" where
  "elems None = []"
| "elems (Some xs) = xs"

text \<open>The struct \<open>Tag\<close> of doc.go.\<close>

record Tag =
  Tag :: string
  Paths :: slice

text \<open>
  The backends. \<open>docTable\<close> and \<open>tagTable\<close> are the two DynamoDB tables, \<open>fs\<close> the
  FileStore, \<open>ti\<close> the match list the TextIndex has for each query. \<open>faults\<close> is the
  outcome of the backend calls to come, in the order they are made: \<open>Some e\<close> makes the
  call fail with \<open>e\<close> and change nothing, \<open>None\<close> lets it through; when the list is used
  up every call goes through. \<open>clock\<close> gives the reading of the n-th call of
  \<open>time.Now()\<close> and \<open>ticks\<close> counts the calls made.
\<close>

record world =
  docTable :: "string \<rightharpoonup> Doc"
  tagTable :: "string \<rightharpoonup> Tag"
  fs :: "string \<rightharpoonup> string"
  ti :: "string \<Rightarrow> string list"
  faults :: "error option list"
  clock :: "nat \<Rightarrow> time"
  ticks :: nat

subsection \<open>Backend calls\<close>

definition next_fault :: "world \<Rightarrow> error option \<times> world" where
  "next_fault w = (case faults w of [] \<Rightarrow> (None, w) | f # rest \<Rightarrow> (f, w\<lparr>faults := rest\<rparr>))"

definition time_Now :: "world \<Rightarrow> time \<times> world" where
  "time_Now w = (clock w (ticks w), w\<lparr>ticks := Suc (ticks w)\<rparr>)"

text \<open>
  Modelled from the spec: the helper \<open>getItem\<close> is not among the sources. The spec's
  Metadata Store has \<open>GetItem(table, keyName, keyValue, &outRecord)\<close> with the error
  NotFound for a key with no record. One function for each table.
\<close>

definition getItem_doc :: "string \<Rightarrow> world \<Rightarrow> (error + Doc) \<times> world" where
  "getItem_doc path w =
     (case next_fault w of
        (Some err, w1) \<Rightarrow> (Inl err, w1)
      | (None, w1) \<Rightarrow>
          (case docTable w1 path of
             None \<Rightarrow> (Inl NotFound, w1)
           | Some doc \<Rightarrow> (Inr doc, w1)))"

definition getItem_tag :: "string \<Rightarrow> world \<Rightarrow> (error + Tag) \<times> world" where
  "getItem_tag t w =
     (case next_fault w of
        (Some err, w1) \<Rightarrow> (Inl err, w1)
      | (None, w1) \<Rightarrow>
          (case tagTable w1 t of
             None \<Rightarrow> (Inl NotFound, w1)
           | Some tag \<Rightarrow> (Inr tag, w1)))"

text \<open>
  \<open>s.client.PutItemRequest(&input).Send()\<close>: the item is stored under its key attribute,
  \<open>path\<close> for a document and \<open>tag\<close> for a tag.
\<close>

definition putItem_doc :: "Doc \<Rightarrow> world \<Rightarrow> error option \<times> world" where
  "putItem_doc doc w =
     (case next_fault w of
        (Some err, w1) \<Rightarrow> (Some err, w1)
      | (None, w1) \<Rightarrow> (None, w1\<lparr>docTable := (docTable w1)(Path doc \<mapsto> doc)\<rparr>))"

definition putItem_tag :: "Tag \<Rightarrow> world \<Rightarrow> error option \<times> world" where
  "putItem_tag tag w =
     (case next_fault w of
        (Some err, w1) \<Rightarrow> (Some err, w1)
      | (None, w1) \<Rightarrow> (None, w1\<lparr>tagTable := (tagTable w1)(Tag tag \<mapsto> tag)\<rparr>))"

text \<open>\<open>s.client.DeleteItemRequest(&input).Send()\<close> on the document table.\<close>

definition deleteItem_doc :: "string \<Rightarrow> world \<Rightarrow> error option \<times> world" where
  "deleteItem_doc path w =
     (case next_fault w of
        (Some err, w1) \<Rightarrow> (Some err, w1)
      | (None, w1) \<Rightarrow> (None, w1\<lparr>docTable := (docTable w1)(path := None)\<rparr>))"

text \<open>
  \<open>dyna.MarshalMap\<close> and the helper \<open>makeKey\<close> touch no backend; they can fail, and
  their outcome is the next one of \<open>faults\<close>.
\<close>

definition MarshalMap :: "world \<Rightarrow> error option \<times> world" where
  "MarshalMap w = next_fault w"

definition makeKey :: "world \<Rightarrow> error option \<times> world" where
  "makeKey w = next_fault w"

text \<open>
  Modelled from the spec: the FileStore behind \<open>s.fs\<close> is not among the sources. The
  spec's Content Store has \<open>ReadFile(path)\<close> and \<open>RemoveFile(path)\<close> with the error
  NotFound for a path with no blob, and \<open>WriteFile(path, bytes)\<close>.
\<close>

definition ReadFile :: "string \<Rightarrow> world \<Rightarrow> (error + string) \<times> world" where
  "ReadFile path w =
     (case next_fault w of
        (Some err, w1) \<Rightarrow> (Inl err, w1)
      | (None, w1) \<Rightarrow>
          (case fs w1 path of
             None \<Rightarrow> (Inl NotFound, w1)
           | Some content \<Rightarrow> (Inr content, w1)))"

definition WriteFile :: "string \<Rightarrow> string \<Rightarrow> world \<Rightarrow> error option \<times> world" where
  "WriteFile path content w =
     (case next_fault w of
        (Some err, w1) \<Rightarrow> (Some err, w1)
      | (None, w1) \<Rightarrow> (None, w1\<lparr>fs := (fs w1)(path \<mapsto> content)\<rparr>))"

definition RemoveFile :: "string \<Rightarrow> world \<Rightarrow> error option \<times> world" where
  "RemoveFile path w =
     (case next_fault w of
        (Some err, w1) \<Rightarrow> (Some err, w1)
      | (None, w1) \<Rightarrow>
          (case fs w1 path of
             None \<Rightarrow> (Some NotFound, w1)
           | Some content \<Rightarrow> (None, w1\<lparr>fs := (fs w1)(path := None)\<rparr>)))"

text \<open>
  Modelled from the spec: the TextIndex behind \<open>s.ti\<close> is not among the sources. The
  spec's Text Index has \<open>Search(query)\<close>, which returns a list of paths or an error.
\<close>

definition Search :: "string \<Rightarrow> world \<Rightarrow> (error + string list) \<times> world" where
  "Search query w =
     (case next_fault w of
        (Some err, w1) \<Rightarrow> (Inl err, w1)
      | (None, w1) \<Rightarrow> (Inr (ti w1 query), w1))"

text \<open>
  Modelled from the spec: \<open>docshelf.CheckDoesNotExist\<close> is not among the sources. The
  spec's existence check asks whether the fetch failed with NotFound.
\<close>

fun CheckDoesNotExist :: "error \<Rightarrow> bool" where
  "CheckDoesNotExist NotFound = True"
| "CheckDoesNotExist err = False"

text \<open>
  Modelled from the spec: the helper \<open>contains\<close> is not among the sources. The spec
  uses it for "the path is already present in the tag's path set".
\<close>

definition contains :: "string list \<Rightarrow> string \<Rightarrow> bool" where
  "contains haystack needle = (needle \<in> set haystack)"

text \<open>
  Modelled from the spec: the helper \<open>intersect\<close> is not among the sources. The
  operations below take it as the parameter \<open>isect\<close>, so that nothing proved of them
  depends on it; this is the spec's "set intersection of ordered path sequences", kept in
  the order of the left sequence, for use at concrete inputs.
\<close>

definition intersect :: "slice \<Rightarrow> slice \<Rightarrow> slice" where
  "intersect left right = Some (filter (contains (elems right)) (elems left))"

subsection \<open>GetDoc\<close>

definition GetDoc :: "string \<Rightarrow> world \<Rightarrow> (error + Doc) \<times> world" where
  "GetDoc path w =
     (case getItem_doc path w of
        (Inl err, w1) \<Rightarrow> (Inl err, w1)
      | (Inr doc, w1) \<Rightarrow>
          (case ReadFile path w1 of
             (Inl err, w2) \<Rightarrow> (Inl err, w2)
           | (Inr content, w2) \<Rightarrow> (Inr (doc\<lparr>Content := content\<rparr>), w2)))"

subsection \<open>ListDocs\<close>

text \<open>
  The loop of \<open>listDocs\<close>, which is also the second loop of \<open>listTaggedDocs\<close>:
  \<open>docs\<close> is the slice built so far.
\<close>

fun listDocs_loop :: "Doc list \<Rightarrow> string list \<Rightarrow> world \<Rightarrow> (error + Doc list) \<times> world" where
  "listDocs_loop docs [] w = (Inr docs, w)"
| "listDocs_loop docs (path # paths) w =
     (case getItem_doc path w of
        (Inl err, w1) \<Rightarrow> (Inl err, w1)
      | (Inr doc, w1) \<Rightarrow> listDocs_loop (docs @ [doc]) paths w1)"

definition listDocs :: "string list \<Rightarrow> world \<Rightarrow> (error + Doc list) \<times> world" where
  "listDocs paths w = listDocs_loop [] paths w"

text \<open>The first loop of \<open>listTaggedDocs\<close>: \<open>paths\<close> starts as the nil slice.\<close>

fun tagPaths_loop ::
  "(slice \<Rightarrow> slice \<Rightarrow> slice) \<Rightarrow> slice \<Rightarrow> string list \<Rightarrow> world \<Rightarrow> (error + slice) \<times> world" where
  "tagPaths_loop isect paths [] w = (Inr paths, w)"
| "tagPaths_loop isect paths (t # tags) w =
     (case getItem_tag t w of
        (Inl err, w1) \<Rightarrow> (Inl err, w1)
      | (Inr tag, w1) \<Rightarrow>
          tagPaths_loop isect
            (if paths = None then Paths tag else isect paths (Paths tag)) tags w1)"

definition listTaggedDocs ::
  "(slice \<Rightarrow> slice \<Rightarrow> slice) \<Rightarrow> string list \<Rightarrow> world \<Rightarrow> (error + Doc list) \<times> world" where
  "listTaggedDocs isect tags w =
     (case tagPaths_loop isect None tags w of
        (Inl err, w1) \<Rightarrow> (Inl err, w1)
      | (Inr paths, w1) \<Rightarrow> listDocs_loop [] (elems paths) w1)"

definition ListDocs ::
  "(slice \<Rightarrow> slice \<Rightarrow> slice) \<Rightarrow> string \<Rightarrow> string list \<Rightarrow> world \<Rightarrow> (error + Doc list) \<times> world" where
  "ListDocs isect query tags w =
     (case (if query \<noteq> '''' then Search query w else (Inr [], w)) of
        (Inl err, w1) \<Rightarrow> (Inl err, w1)
      | (Inr foundPaths, w1) \<Rightarrow>
          if length tags = 0 then listDocs foundPaths w1
          else
            (case listTaggedDocs isect tags w1 of
               (Inl err, w2) \<Rightarrow> (Inl err, w2)
             | (Inr tagged, w2) \<Rightarrow>
                 if query = '''' then (Inr tagged, w2)
                 else if length foundPaths > 0
                   then (Inr (filter (\<lambda>doc. contains foundPaths (Path doc)) tagged), w2)
                   else (Inr [], w2)))"

subsection \<open>PutDoc\<close>

text \<open>
  \<open>PutDoc_store\<close> is PutDoc from \<open>doc.UpdatedAt = time.Now()\<close> to its end: the content
  write, the clearing of the content, the metadata write and its rollback.
\<close>

definition PutDoc_store :: "Doc \<Rightarrow> world \<Rightarrow> error option \<times> world" where
  "PutDoc_store doc0 w =
     (case time_Now w of (now, w1) \<Rightarrow>
        let doc1 = doc0\<lparr>UpdatedAt := now\<rparr> in
        (case WriteFile (Path doc1) (Content doc1) w1 of
           (Some err, w2) \<Rightarrow> (Some (Wrap ''failed to write doc to file store'' err), w2)
         | (None, w2) \<Rightarrow>
             let doc2 = doc1\<lparr>Content := ''''\<rparr> in
             (case MarshalMap w2 of
                (Some err, w3) \<Rightarrow> (Some (Wrap ''failed to marshal doc for dynamo'' err), w3)
              | (None, w3) \<Rightarrow>
                  (case putItem_doc doc2 w3 of
                     (Some err, w4) \<Rightarrow>
                       (case RemoveFile (Path doc2) w4 of
                          (Some err', w5) \<Rightarrow>
                            (Some (Wrap (''cleanup failed for file: '' @ Path doc2) err'), w5)
                        | (None, w5) \<Rightarrow>
                            (Some (Wrap ''failed to put doc into dynamo'' err), w5))
                   | (None, w4) \<Rightarrow> (None, w4)))))"

definition PutDoc :: "Doc \<Rightarrow> world \<Rightarrow> error option \<times> world" where
  "PutDoc doc w =
     (if Path doc = '''' then (Some (New ''can not create a new doc without a path''), w)
      else
        (case GetDoc (Path doc) w of
           (Inl err, w1) \<Rightarrow>
             if \<not> CheckDoesNotExist err
             then (Some (Wrap ''could not verify existing file'' err), w1)
             else (case time_Now w1 of (now, w2) \<Rightarrow> PutDoc_store (doc\<lparr>CreatedAt := now\<rparr>) w2)
         | (Inr existing, w1) \<Rightarrow> PutDoc_store doc w1))"

subsection \<open>TagDoc\<close>

fun TagDoc :: "string \<Rightarrow> string list \<Rightarrow> world \<Rightarrow> error option \<times> world" where
  "TagDoc path [] w = (None, w)"
| "TagDoc path (t # tags) w =
     (case getItem_tag t w of
        (Inl err, w1) \<Rightarrow> (Some err, w1)
      | (Inr tag, w1) \<Rightarrow>
          if contains (elems (Paths tag)) path then TagDoc path tags w1
          else
            let tag1 = (if Tag tag = '''' then tag\<lparr>Tag := t\<rparr> else tag);
                tag2 = tag1\<lparr>Paths := Some (elems (Paths tag1) @ [path])\<rparr>
            in (case MarshalMap w1 of
                  (Some err, w2) \<Rightarrow> (Some err, w2)
                | (None, w2) \<Rightarrow>
                    (case putItem_tag tag2 w2 of
                       (Some err, w3) \<Rightarrow> (Some err, w3)
                     | (None, w3) \<Rightarrow> TagDoc path tags w3)))"

subsection \<open>RemoveDoc\<close>

definition RemoveDoc :: "string \<Rightarrow> world \<Rightarrow> error option \<times> world" where
  "RemoveDoc path w =
     (case RemoveFile path w of
        (Some err, w1) \<Rightarrow> (Some (Wrap ''failed to remove doc from file store'' err), w1)
      | (None, w1) \<Rightarrow>
          (case makeKey w1 of
             (Some err, w2) \<Rightarrow> (Some (Wrap ''failed to make key'' err), w2)
           | (None, w2) \<Rightarrow>
               (case deleteItem_doc path w2 of
                  (Some err, w3) \<Rightarrow> (Some (Wrap ''failed to delete doc from dynamo'' err), w3)
                | (None, w3) \<Rightarrow> (None, w3))))"

subsection \<open>Concrete stores\<close>

text \<open>
  A store with one document \<open>a.md\<close>, its blob, no tag record and no fault to come. The
  clock reads the number of the call plus ten; the text index matches \<open>a.md\<close> for the
  query \<open>foo\<close> and nothing otherwise.
\<close>

definition doc_a :: Doc where
  "doc_a = \<lparr>Path = ''a.md'', Content = '''', CreatedAt = 1, UpdatedAt = 2\<rparr>"

definition clock0 :: "nat \<Rightarrow> time" where
  "clock0 n = 10 + int n"

definition ti0 :: "string \<Rightarrow> string list" where
  "ti0 query = (if query = ''foo'' then [''a.md''] else [])"

definition world_a :: world where
  "world_a =
     \<lparr>docTable = [''a.md'' \<mapsto> doc_a], tagTable = Map.empty, fs = [''a.md'' \<mapsto> ''hello''],
      ti = ti0, faults = [], clock = clock0, ticks = 0\<rparr>"

text \<open>
  The document \<open>b.md\<close>, which \<open>world_a\<close> does not hold, and a new version of
  \<open>a.md\<close>, as a caller would pass them to PutDoc. \<open>world_put\<close> is \<open>world_a\<close> after
  five readings of the clock.
\<close>

definition doc_b :: Doc where
  "doc_b = \<lparr>Path = ''b.md'', Content = ''text'', CreatedAt = 0, UpdatedAt = 0\<rparr>"

definition doc_a' :: Doc where
  "doc_a' = \<lparr>Path = ''a.md'', Content = ''edited'', CreatedAt = 0, UpdatedAt = 0\<rparr>"

definition world_put :: world where
  "world_put = world_a\<lparr>ticks := 5\<rparr>"

text \<open>
  Stores in which the fourth backend call, the metadata write of a PutDoc of \<open>b.md\<close>,
  fails; in the second one the rollback fails too.
\<close>

definition world_put_fails :: world where
  "world_put_fails = world_a\<lparr>faults := [None, None, None, Some (Failure ''put''), None]\<rparr>"

definition world_rollback_fails :: world where
  "world_rollback_fails =
     world_a\<lparr>faults := [None, None, None, Some (Failure ''put''), Some (Failure ''remove'')]\<rparr>"

text \<open>
  Stores that hold the record of \<open>a.md\<close> and no blob for it; in the second one the
  second backend call, the read of the blob, fails with an error of the file store's own.
\<close>

definition world_no_blob :: world where
  "world_no_blob = world_put\<lparr>fs := Map.empty\<rparr>"

definition world_read_fails :: world where
  "world_read_fails = world_no_blob\<lparr>faults := [None, Some (Failure ''read'')]\<rparr>"

text \<open>\<open>world_a\<close> with a first backend call that fails.\<close>

definition world_remove_fails :: world where
  "world_remove_fails = world_a\<lparr>faults := [Some (Failure ''remove'')]\<rparr>"

text \<open>
  \<open>world_a\<close> with two tag records: \<open>x\<close> lists the path \<open>c.md\<close>, \<open>e\<close> lists no
  path.
\<close>

definition tag_x :: Tag where
  "tag_x = \<lparr>Tag = ''x'', Paths = Some [''c.md'']\<rparr>"

definition tag_e :: Tag where
  "tag_e = \<lparr>Tag = ''e'', Paths = Some []\<rparr>"

definition world_tags :: world where
  "world_tags = world_a\<lparr>tagTable := [''x'' \<mapsto> tag_x, ''e'' \<mapsto> tag_e]\<rparr>"

text \<open>\<open>world_tags\<close> once the path \<open>a.md\<close> is listed under the tag \<open>x\<close>.\<close>

definition tag_x' :: Tag where
  "tag_x' = \<lparr>Tag = ''x'', Paths = Some [''c.md'', ''a.md'']\<rparr>"

definition world_tagged :: world where
  "world_tagged = world_a\<lparr>tagTable := [''x'' \<mapsto> tag_x', ''e'' \<mapsto> tag_e]\<rparr>"

text \<open>
  \<open>world_a\<close> with two other tag records: the record of \<open>n\<close> has the nil slice for
  its paths, the record of \<open>y\<close> lists the path \<open>a.md\<close>.
\<close>

definition tag_n :: Tag where
  "tag_n = \<lparr>Tag = ''n'', Paths = None\<rparr>"

definition tag_y :: Tag where
  "tag_y = \<lparr>Tag = ''y'', Paths = Some [''a.md'']\<rparr>"

definition world_nil :: world where
  "world_nil = world_a\<lparr>tagTable := [''n'' \<mapsto> tag_n, ''y'' \<mapsto> tag_y]\<rparr>"

subsection \<open>Predicates of the claims\<close>

text \<open>
  An error reports another when that one is the error itself or is wrapped in it, at any
  depth.
\<close>

fun reports :: "error \<Rightarrow> error \<Rightarrow> bool" where
  "reports (Wrap message err) e = (Wrap message err = e \<or> reports err e)"
| "reports err e = (err = e)"

text \<open>
  The tag table of DynamoDB stores each item under its key attribute: the record under a
  key carries that key as its \<open>tag\<close>.
\<close>

definition wf_tags :: "world \<Rightarrow> bool" where
  "wf_tags w = (\<forall>t tag. tagTable w t = Some tag \<longrightarrow> Tag tag = t)"

text \<open>The invariant of the Tag records: no record lists a path twice.\<close>

definition tags_distinct :: "world \<Rightarrow> bool" where
  "tags_distinct w = (\<forall>t tag. tagTable w t = Some tag \<longrightarrow> distinct (elems (Paths tag)))"

text \<open>The invariant of the Document records: no record carries content.\<close>

definition no_content :: "world \<Rightarrow> bool" where
  "no_content w = (\<forall>path doc. docTable w path = Some doc \<longrightarrow> Content doc = '''')"

section \<open>Properties\<close>

subsection \<open>Backend calls\<close>

lemma next_fault_eq:
  "next_fault w = (f, w1) \<Longrightarrow>
     w1 = w\<lparr>faults := tl (faults w)\<rparr> \<and> f = (case faults w of [] \<Rightarrow> None | x # rest \<Rightarrow> x)"
  by (auto simp: next_fault_def split: list.splits)

lemma next_fault_nil: "faults w = [] \<Longrightarrow> next_fault w = (None, w)"
  by (simp add: next_fault_def)

lemma getItem_doc_world: "getItem_doc path w = (r, w1) \<Longrightarrow> w1 = w\<lparr>faults := tl (faults w)\<rparr>"
  by (auto simp: getItem_doc_def split: prod.splits option.splits dest: next_fault_eq)

lemma getItem_doc_Inr: "getItem_doc path w = (Inr doc, w1) \<Longrightarrow> docTable w path = Some doc"
  by (auto simp: getItem_doc_def split: prod.splits option.splits dest!: next_fault_eq)

lemma getItem_doc_nil:
  "faults w = [] \<Longrightarrow>
     getItem_doc path w = (case docTable w path of None \<Rightarrow> Inl NotFound | Some doc \<Rightarrow> Inr doc, w)"
  by (simp add: getItem_doc_def next_fault_nil split: option.splits)

lemma Search_nil: "faults w = [] \<Longrightarrow> Search query w = (Inr (ti w query), w)"
  by (simp add: Search_def next_fault_nil)

lemma Search_Inr:
  "Search query w = (Inr found, w1) \<Longrightarrow> found = ti w query \<and> w1 = w\<lparr>faults := tl (faults w)\<rparr>"
  by (auto simp: Search_def split: prod.splits option.splits dest!: next_fault_eq)

subsection \<open>The listing loop\<close>

lemma listDocs_loop_world:
  "listDocs_loop docs paths w = (r, w1) \<Longrightarrow>
     docTable w1 = docTable w \<and> tagTable w1 = tagTable w \<and> fs w1 = fs w \<and> ti w1 = ti w
       \<and> clock w1 = clock w \<and> ticks w1 = ticks w"
proof (induction paths arbitrary: docs w)
  case Nil
  then show ?case by simp
next
  case (Cons path paths)
  show ?case
  proof (cases "getItem_doc path w")
    case (Pair r0 w0)
    then have w0: "w0 = w\<lparr>faults := tl (faults w)\<rparr>" by (rule getItem_doc_world)
    show ?thesis
    proof (cases r0)
      case (Inl err)
      with Pair Cons.prems w0 show ?thesis by auto
    next
      case (Inr doc)
      with Pair Cons.prems have "listDocs_loop (docs @ [doc]) paths w0 = (r, w1)" by simp
      from Cons.IH [OF this] w0 show ?thesis by simp
    qed
  qed
qed

lemma listDocs_loop_Inr:
  "listDocs_loop docs paths w = (Inr found, w1) \<Longrightarrow>
     map Some found = map Some docs @ map (docTable w) paths"
proof (induction paths arbitrary: docs w)
  case Nil
  then show ?case by simp
next
  case (Cons path paths)
  show ?case
  proof (cases "getItem_doc path w")
    case (Pair r0 w0)
    then have w0: "w0 = w\<lparr>faults := tl (faults w)\<rparr>" by (rule getItem_doc_world)
    show ?thesis
    proof (cases r0)
      case (Inl err)
      with Pair Cons.prems show ?thesis by simp
    next
      case (Inr doc)
      with Pair have doc: "docTable w path = Some doc" by (simp add: getItem_doc_Inr)
      from Inr Pair Cons.prems have "listDocs_loop (docs @ [doc]) paths w0 = (Inr found, w1)"
        by simp
      from Cons.IH [OF this] w0 doc show ?thesis by simp
    qed
  qed
qed

lemma listDocs_loop_nil:
  "faults w = [] \<Longrightarrow> set paths \<subseteq> dom (docTable w) \<Longrightarrow>
     \<exists>found. listDocs_loop docs paths w = (Inr found, w)"
proof (induction paths arbitrary: docs)
  case Nil
  then show ?case by simp
next
  case (Cons path paths)
  from Cons.prems obtain doc where "docTable w path = Some doc" by auto
  with Cons.prems have "getItem_doc path w = (Inr doc, w)" by (simp add: getItem_doc_nil)
  moreover from Cons have "\<exists>found. listDocs_loop (docs @ [doc]) paths w = (Inr found, w)" by simp
  ultimately show ?case by simp
qed

subsection \<open>ListDocs without tags\<close>

text \<open>
  C1, as the code has it. With an empty query and no tags ListDocs fetches nothing and
  returns the empty list, whatever the document table holds. With a non-empty query and no
  tags, a result it returns is the list of the records of the text index's match list, in
  that order; and it returns one when no backend call fails and every matched path has a
  record.
\<close>

theorem ListDocs_no_tags:
  "ListDocs isect '''' [] w = (Inr [], w) \<and>
   (query \<noteq> '''' \<longrightarrow>
      (\<forall>docs. fst (ListDocs isect query [] w) = Inr docs \<longrightarrow>
         map Some docs = map (docTable w) (ti w query)) \<and>
      (faults w = [] \<and> set (ti w query) \<subseteq> dom (docTable w) \<longrightarrow>
         (\<exists>docs. ListDocs isect query [] w = (Inr docs, w))))"
proof (intro conjI impI allI)
  show "ListDocs isect '''' [] w = (Inr [], w)"
    by (simp add: ListDocs_def listDocs_def)
next
  fix docs
  assume q: "query \<noteq> ''''" and r: "fst (ListDocs isect query [] w) = Inr docs"
  obtain r0 w0 where s: "Search query w = (r0, w0)" by (cases "Search query w")
  show "map Some docs = map (docTable w) (ti w query)"
  proof (cases r0)
    case (Inl err)
    with q r s show ?thesis by (simp add: ListDocs_def)
  next
    case (Inr found)
    with s have f: "found = ti w query" and w0: "w0 = w\<lparr>faults := tl (faults w)\<rparr>"
      by (simp_all add: Search_Inr)
    obtain w1 where "listDocs_loop [] found w0 = (Inr docs, w1)"
      using q r s Inr by (cases "listDocs_loop [] found w0") (simp add: ListDocs_def listDocs_def)
    from listDocs_loop_Inr [OF this] f w0 show ?thesis by simp
  qed
next
  assume q: "query \<noteq> ''''" and ok: "faults w = [] \<and> set (ti w query) \<subseteq> dom (docTable w)"
  then obtain docs where "listDocs_loop [] (ti w query) w = (Inr docs, w)"
    using listDocs_loop_nil by blast
  with q ok show "\<exists>docs. ListDocs isect query [] w = (Inr docs, w)"
    by (simp add: ListDocs_def listDocs_def Search_nil)
qed

text \<open>The query \<open>foo\<close> on the store \<open>world_a\<close> returns the record of \<open>a.md\<close>.\<close>

theorem ListDocs_no_tags_witness:
  "''foo'' \<noteq> '''' \<and> faults world_a = [] \<and> set (ti world_a ''foo'') \<subseteq> dom (docTable world_a)
     \<and> ListDocs intersect ''foo'' [] world_a = (Inr [doc_a], world_a)
     \<and> map Some [doc_a] = map (docTable world_a) (ti world_a ''foo'')"
proof -
  have h: "faults world_a = [] \<and> set (ti world_a ''foo'') \<subseteq> dom (docTable world_a)"
    by (simp add: world_a_def ti0_def)
  have q: "''foo'' \<noteq> ''''" by simp
  from ListDocs_no_tags [of intersect world_a "''foo''"] q h
  obtain docs where d: "ListDocs intersect ''foo'' [] world_a = (Inr docs, world_a)"
    and m: "map Some docs = map (docTable world_a) (ti world_a ''foo'')"
    by auto
  from m have "docs = [doc_a]" by (cases docs) (auto simp: world_a_def ti0_def)
  with d m h show ?thesis by simp
qed

text \<open>
  C1 as the spec states it fails: the store \<open>world_a\<close> holds the document \<open>a.md\<close>,
  and ListDocs with an empty query and no tags returns no document.
\<close>

theorem ListDocs_corpus_counterexample:
  "fst (ListDocs intersect '''' [] world_a) = Inr [] \<and> docTable world_a ''a.md'' = Some doc_a"
  by (simp add: ListDocs_def listDocs_def world_a_def)

subsection \<open>GetDoc and the writing part of PutDoc\<close>

lemmas backend_defs =
  next_fault_def getItem_doc_def ReadFile_def WriteFile_def RemoveFile_def putItem_doc_def
  MarshalMap_def makeKey_def deleteItem_doc_def time_Now_def

lemma GetDoc_world:
  "GetDoc path w = (r, w1) \<Longrightarrow>
     docTable w1 = docTable w \<and> tagTable w1 = tagTable w \<and> fs w1 = fs w \<and> ti w1 = ti w
       \<and> clock w1 = clock w \<and> ticks w1 = ticks w"
  by (auto simp: GetDoc_def backend_defs split: prod.splits sum.splits option.splits list.splits)

lemma GetDoc_Inr:
  "GetDoc path w = (Inr doc, w1) \<Longrightarrow>
     \<exists>stored content. docTable w path = Some stored \<and> fs w path = Some content
        \<and> doc = stored\<lparr>Content := content\<rparr>"
  by (auto simp: GetDoc_def backend_defs split: prod.splits sum.splits option.splits list.splits)

lemma GetDoc_nil:
  "faults w = [] \<Longrightarrow>
     GetDoc path w =
       (case docTable w path of
          None \<Rightarrow> Inl NotFound
        | Some stored \<Rightarrow>
            (case fs w path of None \<Rightarrow> Inl NotFound
             | Some content \<Rightarrow> Inr (stored\<lparr>Content := content\<rparr>)), w)"
  by (auto simp: GetDoc_def backend_defs split: prod.splits sum.splits option.splits list.splits)

lemma PutDoc_store_None:
  "PutDoc_store doc w = (None, w') \<Longrightarrow>
     w' = w\<lparr>ticks := Suc (ticks w), faults := drop 3 (faults w),
            fs := (fs w)(Path doc \<mapsto> Content doc),
            docTable := (docTable w)(Path doc \<mapsto> doc\<lparr>UpdatedAt := clock w (ticks w), Content := ''''\<rparr>)\<rparr>"
  by (auto simp: PutDoc_store_def backend_defs Let_def
        split: prod.splits sum.splits option.splits list.splits)

lemma PutDoc_store_docTable:
  "PutDoc_store doc w = (r, w') \<Longrightarrow>
     docTable w' = docTable w \<or>
     docTable w' = (docTable w)(Path doc \<mapsto> doc\<lparr>UpdatedAt := clock w (ticks w), Content := ''''\<rparr>)"
  by (auto simp: PutDoc_store_def backend_defs Let_def
        split: prod.splits sum.splits option.splits list.splits)

lemma PutDoc_store_put_fails:
  "faults w = None # None # Some e # f # rest \<Longrightarrow>
     PutDoc_store doc w =
       (Some (case f of
                None \<Rightarrow> Wrap ''failed to put doc into dynamo'' e
              | Some e' \<Rightarrow> Wrap (''cleanup failed for file: '' @ Path doc) e'),
        w\<lparr>ticks := Suc (ticks w), faults := rest,
          fs := (case f of None \<Rightarrow> (fs w)(Path doc := None)
                 | Some e' \<Rightarrow> (fs w)(Path doc \<mapsto> Content doc))\<rparr>)"
  by (auto simp: PutDoc_store_def backend_defs Let_def
        split: prod.splits sum.splits option.splits list.splits)

subsection \<open>PutDoc: a failing metadata write\<close>

text \<open>
  C2, as the code has it. Take a PutDoc with a non-empty path whose existence check lets it
  go on, and whose next backend calls are a content write and a marshalling that succeed, a
  metadata write that fails with \<open>e\<close>, and the rollback delete with the outcome \<open>f\<close>.
  The rollback delete is attempted. When it succeeds, PutDoc returns \<open>e\<close> wrapped as
  "failed to put doc into dynamo" and the blob is gone. When it fails with \<open>e'\<close>,
  PutDoc returns \<open>e'\<close> wrapped as "cleanup failed for file: " followed by the path, an
  error of its own kind in which \<open>e\<close> does not appear, and the blob written stays. The
  document table is unchanged either way.
\<close>

theorem PutDoc_metadata_write_fails:
  assumes "Path doc \<noteq> ''''"
    and "GetDoc (Path doc) w = (r, w1)"
    and "case r of Inl err \<Rightarrow> CheckDoesNotExist err | Inr existing \<Rightarrow> True"
    and "faults w1 = None # None # Some e # f # rest"
  shows "fst (PutDoc doc w) =
           Some (case f of
                   None \<Rightarrow> Wrap ''failed to put doc into dynamo'' e
                 | Some e' \<Rightarrow> Wrap (''cleanup failed for file: '' @ Path doc) e')
         \<and> fs (snd (PutDoc doc w)) (Path doc) =
             (case f of None \<Rightarrow> None | Some e' \<Rightarrow> Some (Content doc))
         \<and> docTable (snd (PutDoc doc w)) = docTable w"

proof -
  from assms(2) have same: "docTable w1 = docTable w" "fs w1 = fs w"
    by (simp_all add: GetDoc_world)
  show ?thesis
  proof (cases r)
    case (Inl err)
    with assms(3) have "CheckDoesNotExist err" by simp
    with Inl assms(1,2) have
      "PutDoc doc w = PutDoc_store (doc\<lparr>CreatedAt := clock w1 (ticks w1)\<rparr>) (w1\<lparr>ticks := Suc (ticks w1)\<rparr>)"
      by (simp add: PutDoc_def time_Now_def)
    moreover have "faults (w1\<lparr>ticks := Suc (ticks w1)\<rparr>) = None # None # Some e # f # rest"
      using assms(4) by simp
    ultimately show ?thesis
      using same by (simp add: PutDoc_store_put_fails split: option.splits)
  next
    case (Inr existing)
    with assms(1,2) have "PutDoc doc w = PutDoc_store doc w1"
      by (simp add: PutDoc_def)
    with assms(4) same show ?thesis
      by (simp add: PutDoc_store_put_fails split: option.splits)
  qed

qed

lemma GetDoc_b:
  "GetDoc ''b.md'' (world_a\<lparr>faults := None # rest\<rparr>)
     = (Inl NotFound, world_a\<lparr>faults := rest\<rparr>)"
  by (simp add: GetDoc_def backend_defs world_a_def)

text \<open>
  PutDoc of \<open>b.md\<close> on \<open>world_put_fails\<close>: the metadata write fails, the rollback
  succeeds.
\<close>

theorem PutDoc_metadata_write_fails_witness:
  "Path doc_b \<noteq> ''''
   \<and> GetDoc (Path doc_b) world_put_fails
       = (Inl NotFound, world_a\<lparr>faults := [None, None, Some (Failure ''put''), None]\<rparr>)
   \<and> CheckDoesNotExist NotFound
   \<and> fst (PutDoc doc_b world_put_fails) = Some (Wrap ''failed to put doc into dynamo'' (Failure ''put''))
   \<and> fs (snd (PutDoc doc_b world_put_fails)) ''b.md'' = None
   \<and> docTable (snd (PutDoc doc_b world_put_fails)) = docTable world_put_fails"

proof -
  have p: "Path doc_b \<noteq> ''''" by (simp add: doc_b_def)
  have g: "GetDoc (Path doc_b) world_put_fails
             = (Inl NotFound, world_a\<lparr>faults := [None, None, Some (Failure ''put''), None]\<rparr>)"
    by (simp add: doc_b_def world_put_fails_def GetDoc_b)
  have c: "case Inl NotFound of Inl err \<Rightarrow> CheckDoesNotExist err | Inr (existing :: Doc) \<Rightarrow> True"
    by simp
  have f: "faults (world_a\<lparr>faults := [None, None, Some (Failure ''put''), None]\<rparr>)
             = None # None # Some (Failure ''put'') # None # []"
    by simp
  from PutDoc_metadata_write_fails [OF p g c f] p g show ?thesis
    by (simp add: doc_b_def)

qed

text \<open>
  C2 as the spec states it fails: on \<open>world_rollback_fails\<close> the metadata write fails
  with \<open>Failure ''put''\<close> and the rollback with \<open>Failure ''remove''\<close>; the error PutDoc
  returns reports the second and not the first.
\<close>

theorem PutDoc_rollback_counterexample:
  "fst (PutDoc doc_b world_rollback_fails)
     = Some (Wrap ''cleanup failed for file: b.md'' (Failure ''remove''))
   \<and> \<not> reports (Wrap ''cleanup failed for file: b.md'' (Failure ''remove'')) (Failure ''put'')"
  by (simp add: PutDoc_def PutDoc_store_def GetDoc_def backend_defs Let_def
        world_rollback_fails_def world_a_def doc_b_def)

subsection \<open>PutDoc: what a successful call stores\<close>

lemma PutDoc_None:
  assumes "PutDoc doc w = (None, w')"
  shows "Path doc \<noteq> ''''"
    and "fs w' (Path doc) = Some (Content doc)"
    and "fst (GetDoc (Path doc) w) = Inl NotFound \<or> (\<exists>existing. fst (GetDoc (Path doc) w) = Inr existing)"
    and "fst (GetDoc (Path doc) w) = Inl NotFound \<Longrightarrow>
           docTable w' (Path doc) =
             Some (doc\<lparr>CreatedAt := clock w (ticks w), UpdatedAt := clock w (Suc (ticks w)),
                       Content := ''''\<rparr>)"
    and "fst (GetDoc (Path doc) w) = Inr existing \<Longrightarrow>
           docTable w' (Path doc) = Some (doc\<lparr>UpdatedAt := clock w (ticks w), Content := ''''\<rparr>)"

proof -
  show p: "Path doc \<noteq> ''''" using assms by (auto simp: PutDoc_def)
  obtain r w1 where g: "GetDoc (Path doc) w = (r, w1)" by (cases "GetDoc (Path doc) w")
  then have same: "docTable w1 = docTable w" "fs w1 = fs w" "clock w1 = clock w" "ticks w1 = ticks w"
    by (simp_all add: GetDoc_world)
  have cases: "(r = Inl NotFound \<and>
        PutDoc_store (doc\<lparr>CreatedAt := clock w (ticks w)\<rparr>) (w1\<lparr>ticks := Suc (ticks w)\<rparr>) = (None, w'))
      \<or> ((\<exists>existing. r = Inr existing) \<and> PutDoc_store doc w1 = (None, w'))"
  proof (cases r)
    case (Inl err)
    with assms p g have "CheckDoesNotExist err" by (auto simp: PutDoc_def split: if_splits)
    then have "err = NotFound" by (cases err) simp_all
    with Inl assms p g same show ?thesis by (simp add: PutDoc_def time_Now_def)
  next
    case (Inr existing)
    with assms p g show ?thesis by (simp add: PutDoc_def)
  qed
  from cases g show "fst (GetDoc (Path doc) w) = Inl NotFound \<or> (\<exists>existing. fst (GetDoc (Path doc) w) = Inr existing)"
    by auto
  from cases show "fs w' (Path doc) = Some (Content doc)"
    by (auto dest!: PutDoc_store_None)
  { assume "fst (GetDoc (Path doc) w) = Inl NotFound"
    with cases g have "PutDoc_store (doc\<lparr>CreatedAt := clock w (ticks w)\<rparr>) (w1\<lparr>ticks := Suc (ticks w)\<rparr>) = (None, w')"
      by auto
    from PutDoc_store_None [OF this] same
    show "docTable w' (Path doc) =
             Some (doc\<lparr>CreatedAt := clock w (ticks w), UpdatedAt := clock w (Suc (ticks w)),
                       Content := ''''\<rparr>)" by simp }
  { assume "fst (GetDoc (Path doc) w) = Inr existing"
    with cases g have "PutDoc_store doc w1 = (None, w')" by auto
    from PutDoc_store_None [OF this] same
    show "docTable w' (Path doc) = Some (doc\<lparr>UpdatedAt := clock w (ticks w), Content := ''''\<rparr>)"
      by simp }

qed

text \<open>
  C3, as the code has it. After a successful PutDoc the document table holds a record for
  the path. When the existence check failed (then with NotFound), its createdAt is the
  reading of the clock taken in that branch and its updatedAt is the next reading, taken
  after it. When the existence check found a document, its createdAt is the one of the
  document passed to PutDoc, whatever the existing record has, and its updatedAt is the
  reading of the clock.
\<close>

theorem PutDoc_timestamps:
  assumes "PutDoc doc w = (None, w')"
  shows "\<exists>stored. docTable w' (Path doc) = Some stored \<and>
           (case fst (GetDoc (Path doc) w) of
              Inl err \<Rightarrow>
                err = NotFound \<and> CreatedAt stored = clock w (ticks w)
                  \<and> UpdatedAt stored = clock w (Suc (ticks w))
            | Inr existing \<Rightarrow>
                CreatedAt stored = CreatedAt doc \<and> UpdatedAt stored = clock w (ticks w))"

proof -
  from PutDoc_None(3) [OF assms] show ?thesis
  proof
    assume nf: "fst (GetDoc (Path doc) w) = Inl NotFound"
    from PutDoc_None(4) [OF assms nf] nf show ?thesis by simp
  next
    assume "\<exists>existing. fst (GetDoc (Path doc) w) = Inr existing"
    then obtain existing where ex: "fst (GetDoc (Path doc) w) = Inr existing" ..
    from PutDoc_None(5) [OF assms ex] ex show ?thesis by simp
  qed

qed

lemma PutDoc_b:
  "PutDoc doc_b world_put =
     (None, world_put\<lparr>ticks := 7, fs := (fs world_put)(''b.md'' \<mapsto> ''text''),
        docTable := (docTable world_put)(''b.md'' \<mapsto>
           \<lparr>Path = ''b.md'', Content = '''', CreatedAt = 15, UpdatedAt = 16\<rparr>)\<rparr>)"
  by (simp add: PutDoc_def PutDoc_store_def GetDoc_def backend_defs Let_def
        world_put_def world_a_def doc_b_def clock0_def)

lemma PutDoc_a':
  "PutDoc doc_a' world_put =
     (None, world_put\<lparr>ticks := 6, fs := (fs world_put)(''a.md'' \<mapsto> ''edited''),
        docTable := (docTable world_put)(''a.md'' \<mapsto>
           \<lparr>Path = ''a.md'', Content = '''', CreatedAt = 0, UpdatedAt = 15\<rparr>)\<rparr>)"
  by (simp add: PutDoc_def PutDoc_store_def GetDoc_def backend_defs Let_def
        world_put_def world_a_def doc_a_def doc_a'_def clock0_def)

text \<open>PutDoc of the new document \<open>b.md\<close> on \<open>world_put\<close>.\<close>

theorem PutDoc_timestamps_witness:
  "PutDoc doc_b world_put = (None, snd (PutDoc doc_b world_put))
   \<and> fst (GetDoc (Path doc_b) world_put) = Inl NotFound
   \<and> map_option CreatedAt (docTable (snd (PutDoc doc_b world_put)) (Path doc_b)) = Some 15
   \<and> map_option UpdatedAt (docTable (snd (PutDoc doc_b world_put)) (Path doc_b)) = Some 16
   \<and> clock world_put (ticks world_put) = 15 \<and> clock world_put (Suc (ticks world_put)) = 16"

proof -
  have ok: "PutDoc doc_b world_put = (None, snd (PutDoc doc_b world_put))"
    by (simp add: PutDoc_b)
  have g: "fst (GetDoc (Path doc_b) world_put) = Inl NotFound"
    by (simp add: GetDoc_def backend_defs world_put_def world_a_def doc_b_def)
  have c: "clock world_put (ticks world_put) = 15 \<and> clock world_put (Suc (ticks world_put)) = 16"
    by (simp add: world_put_def world_a_def clock0_def)
  from PutDoc_timestamps [OF ok] g c ok show ?thesis by auto

qed

text \<open>
  C3 as the spec states it fails twice on \<open>world_put\<close>. The new document \<open>b.md\<close> is
  stored with createdAt 15 and updatedAt 16, the two readings of the clock. The document
  \<open>a.md\<close>, whose record has createdAt 1, is stored with createdAt 0, the value of the
  document passed in.
\<close>

theorem PutDoc_createdAt_counterexample:
  "fst (PutDoc doc_b world_put) = None
   \<and> docTable world_put ''b.md'' = None
   \<and> map_option CreatedAt (docTable (snd (PutDoc doc_b world_put)) ''b.md'') = Some 15
   \<and> map_option UpdatedAt (docTable (snd (PutDoc doc_b world_put)) ''b.md'') = Some 16
   \<and> fst (PutDoc doc_a' world_put) = None
   \<and> map_option CreatedAt (docTable world_put ''a.md'') = Some 1
   \<and> map_option CreatedAt (docTable (snd (PutDoc doc_a' world_put)) ''a.md'') = Some 0"
  by (simp add: PutDoc_b PutDoc_a') (simp add: world_put_def world_a_def doc_a_def)

subsection \<open>PutDoc, then GetDoc\<close>

text \<open>
  C6. After a successful PutDoc of a document with a non-empty path, a document that GetDoc
  returns for the same path has the content and the path passed to PutDoc; and GetDoc
  returns one when no backend call of it fails.
\<close>

theorem PutDoc_GetDoc:
  assumes "Path doc \<noteq> ''''" and "PutDoc doc w = (None, w')"
  shows "(\<forall>got w''. GetDoc (Path doc) w' = (Inr got, w'') \<longrightarrow>
            Content got = Content doc \<and> Path got = Path doc)
         \<and> (faults w' = [] \<longrightarrow>
              (\<exists>got. GetDoc (Path doc) w' = (Inr got, w')
                 \<and> Content got = Content doc \<and> Path got = Path doc))"

proof -
  from PutDoc_None(3-5) [OF assms(2)]
  obtain stored where s: "docTable w' (Path doc) = Some stored" and p: "Path stored = Path doc"
    by auto
  from PutDoc_None(2) [OF assms(2)] have c: "fs w' (Path doc) = Some (Content doc)" .
  have "Content got = Content doc \<and> Path got = Path doc"
    if "GetDoc (Path doc) w' = (Inr got, w'')" for got w''
    using GetDoc_Inr [OF that] s p c by auto
  moreover have "\<exists>got. GetDoc (Path doc) w' = (Inr got, w')
      \<and> Content got = Content doc \<and> Path got = Path doc" if "faults w' = []"
    using that s p c by (simp add: GetDoc_nil)
  ultimately show ?thesis by blast

qed

text \<open>PutDoc of \<open>b.md\<close> on \<open>world_put\<close>, then GetDoc.\<close>

theorem PutDoc_GetDoc_witness:
  "Path doc_b \<noteq> '''' \<and> PutDoc doc_b world_put = (None, snd (PutDoc doc_b world_put))
   \<and> faults (snd (PutDoc doc_b world_put)) = []
   \<and> map_sum id Content (fst (GetDoc (Path doc_b) (snd (PutDoc doc_b world_put))))
       = Inr (Content doc_b)
   \<and> map_sum id Path (fst (GetDoc (Path doc_b) (snd (PutDoc doc_b world_put))))
       = Inr (Path doc_b)"

proof -
  have p: "Path doc_b \<noteq> ''''" by (simp add: doc_b_def)
  have ok: "PutDoc doc_b world_put = (None, snd (PutDoc doc_b world_put))"
    by (simp add: PutDoc_b)
  have f: "faults (snd (PutDoc doc_b world_put)) = []"
    by (simp add: PutDoc_b) (simp add: world_put_def world_a_def)
  from PutDoc_GetDoc [OF p ok] f
  obtain got where "GetDoc (Path doc_b) (snd (PutDoc doc_b world_put))
        = (Inr got, snd (PutDoc doc_b world_put))"
    and "Content got = Content doc_b" and "Path got = Path doc_b"
    by blast
  with p ok f show ?thesis by simp

qed

subsection \<open>PutDoc on a record whose blob is missing\<close>

text \<open>
  C10, as the code has it. Take a path whose record exists and whose blob is missing.
  When no backend call fails otherwise, the read of the blob fails with NotFound, which is
  what the existence check takes for a path that does not exist: PutDoc goes on as for a
  create, sets createdAt to the reading of the clock, and writes the blob and the record.
  When the read of the blob fails with an error that is not NotFound, PutDoc returns it
  wrapped as "could not verify existing file" and writes nothing.
\<close>

theorem PutDoc_missing_blob:
  assumes "Path doc \<noteq> ''''"
    and "docTable w (Path doc) = Some existing"
    and "fs w (Path doc) = None"
  shows "(faults w = [] \<longrightarrow>
            fst (GetDoc (Path doc) w) = Inl NotFound
            \<and> PutDoc doc w =
                (None, w\<lparr>ticks := Suc (Suc (ticks w)),
                   fs := (fs w)(Path doc \<mapsto> Content doc),
                   docTable := (docTable w)(Path doc \<mapsto>
                     doc\<lparr>CreatedAt := clock w (ticks w), UpdatedAt := clock w (Suc (ticks w)),
                         Content := ''''\<rparr>)\<rparr>))
         \<and> (\<forall>e rest. faults w = None # Some e # rest \<and> \<not> CheckDoesNotExist e \<longrightarrow>
              PutDoc doc w =
                (Some (Wrap ''could not verify existing file'' e), w\<lparr>faults := rest\<rparr>))"
  using assms
  by (auto simp: PutDoc_def PutDoc_store_def GetDoc_def backend_defs Let_def)

text \<open>
  PutDoc of \<open>a.md\<close> on \<open>world_read_fails\<close>, where the read fails with an error of
  the file store's own, and on \<open>world_no_blob\<close>.
\<close>

theorem PutDoc_missing_blob_witness:
  "Path doc_a' \<noteq> '''' \<and> docTable world_read_fails (Path doc_a') = Some doc_a
   \<and> fs world_read_fails (Path doc_a') = None
   \<and> faults world_read_fails = None # Some (Failure ''read'') # []
   \<and> \<not> CheckDoesNotExist (Failure ''read'')
   \<and> PutDoc doc_a' world_read_fails =
       (Some (Wrap ''could not verify existing file'' (Failure ''read'')),
        world_read_fails\<lparr>faults := []\<rparr>)
   \<and> faults world_no_blob = []
   \<and> fst (PutDoc doc_a' world_no_blob) = None
   \<and> fs (snd (PutDoc doc_a' world_no_blob)) ''a.md'' = Some ''edited''"

proof -
  have h: "Path doc_a' \<noteq> ''''" "docTable world_read_fails (Path doc_a') = Some doc_a"
    "fs world_read_fails (Path doc_a') = None"
    "faults world_read_fails = None # Some (Failure ''read'') # []"
    "\<not> CheckDoesNotExist (Failure ''read'')"
    by (simp_all add: doc_a'_def world_read_fails_def world_no_blob_def world_put_def world_a_def)
  have h': "docTable world_no_blob (Path doc_a') = Some doc_a"
    "fs world_no_blob (Path doc_a') = None" "faults world_no_blob = []"
    by (simp_all add: doc_a'_def world_no_blob_def world_put_def world_a_def)
  from PutDoc_missing_blob [OF h(1-3)] h(4,5)
  have 1: "PutDoc doc_a' world_read_fails =
       (Some (Wrap ''could not verify existing file'' (Failure ''read'')),
        world_read_fails\<lparr>faults := []\<rparr>)"
    by blast
  from PutDoc_missing_blob [OF h(1) h'(1,2)] h'(3)
  have 2: "fst (PutDoc doc_a' world_no_blob) = None
     \<and> fs (snd (PutDoc doc_a' world_no_blob)) ''a.md'' = Some ''edited''"
    by (simp add: doc_a'_def)
  from h h' 1 2 show ?thesis by simp

qed

text \<open>
  C10 as the spec states it fails: \<open>world_no_blob\<close> holds the record of \<open>a.md\<close> and
  no blob for it, and PutDoc returns no error, writes the blob and stores the record with
  createdAt 15, the reading of the clock.
\<close>

theorem PutDoc_missing_blob_counterexample:
  "docTable world_no_blob ''a.md'' = Some doc_a \<and> fs world_no_blob ''a.md'' = None
   \<and> fst (PutDoc doc_a' world_no_blob) = None
   \<and> fs (snd (PutDoc doc_a' world_no_blob)) ''a.md'' = Some ''edited''
   \<and> map_option CreatedAt (docTable (snd (PutDoc doc_a' world_no_blob)) ''a.md'') = Some 15"
  by (simp add: PutDoc_def PutDoc_store_def GetDoc_def backend_defs Let_def
        world_no_blob_def world_put_def world_a_def doc_a_def doc_a'_def clock0_def)

subsection \<open>RemoveDoc\<close>

lemma RemoveFile_Some:
  "RemoveFile path w = (Some err, w1) \<Longrightarrow>
     docTable w1 = docTable w \<and> tagTable w1 = tagTable w \<and> fs w1 = fs w"
  by (auto simp: backend_defs split: prod.splits option.splits list.splits)

lemma RemoveDoc_cases:
  "RemoveDoc path w = (r, w') \<Longrightarrow> tagTable w' = tagTable w \<and>
     ((fs w' = fs w \<and> docTable w' = docTable w \<and> r \<noteq> None)
      \<or> (fs w' = (fs w)(path := None) \<and> docTable w' = docTable w \<and> r \<noteq> None)
      \<or> (fs w' = (fs w)(path := None) \<and> docTable w' = (docTable w)(path := None) \<and> r = None))"
  by (auto simp: RemoveDoc_def backend_defs split: prod.splits option.splits list.splits)

text \<open>
  C8. When the deletion of the content blob fails, RemoveDoc returns that error, wrapped
  as "failed to remove doc from file store", and leaves the document table and the file
  store as they were. Whenever RemoveDoc changes the document table, it has removed the
  record of the path, the blob of the path is gone and the call succeeded: no call leaves
  the record removed and the blob in place. And when the blob is there and no backend call
  fails, RemoveDoc removes both.
\<close>

theorem RemoveDoc_content_first:
  "(\<forall>err w1. RemoveFile path w = (Some err, w1) \<longrightarrow>
      RemoveDoc path w = (Some (Wrap ''failed to remove doc from file store'' err), w1)
      \<and> docTable w1 = docTable w \<and> fs w1 = fs w)
   \<and> (docTable (snd (RemoveDoc path w)) \<noteq> docTable w \<longrightarrow>
        fs (snd (RemoveDoc path w)) path = None \<and> fst (RemoveDoc path w) = None
        \<and> docTable (snd (RemoveDoc path w)) = (docTable w)(path := None))
   \<and> (fs w path \<noteq> None \<and> faults w = [] \<longrightarrow>
        RemoveDoc path w =
          (None, w\<lparr>fs := (fs w)(path := None), docTable := (docTable w)(path := None)\<rparr>))"
proof (intro conjI allI impI)
  fix err w1
  assume r: "RemoveFile path w = (Some err, w1)"
  then show "RemoveDoc path w = (Some (Wrap ''failed to remove doc from file store'' err), w1)"
    by (simp add: RemoveDoc_def)
  from RemoveFile_Some [OF r] show "docTable w1 = docTable w" "fs w1 = fs w" by simp_all
next
  assume c: "docTable (snd (RemoveDoc path w)) \<noteq> docTable w"
  obtain r w' where rw: "RemoveDoc path w = (r, w')" by (cases "RemoveDoc path w")
  from RemoveDoc_cases [OF rw] c rw
  show "fs (snd (RemoveDoc path w)) path = None" "fst (RemoveDoc path w) = None"
    "docTable (snd (RemoveDoc path w)) = (docTable w)(path := None)"
    by auto
next
  assume "fs w path \<noteq> None \<and> faults w = []"
  then show "RemoveDoc path w =
          (None, w\<lparr>fs := (fs w)(path := None), docTable := (docTable w)(path := None)\<rparr>)"
    by (auto simp: RemoveDoc_def backend_defs)
qed

text \<open>
  RemoveDoc of \<open>a.md\<close> on \<open>world_remove_fails\<close>, where the deletion of the blob
  fails, and on \<open>world_a\<close>, where it removes the blob and the record.
\<close>

theorem RemoveDoc_content_first_witness:
  "RemoveFile ''a.md'' world_remove_fails = (Some (Failure ''remove''), world_a)
   \<and> RemoveDoc ''a.md'' world_remove_fails
       = (Some (Wrap ''failed to remove doc from file store'' (Failure ''remove'')), world_a)
   \<and> docTable world_a = docTable world_remove_fails \<and> fs world_a = fs world_remove_fails
   \<and> fs world_a ''a.md'' \<noteq> None \<and> faults world_a = []
   \<and> RemoveDoc ''a.md'' world_a
       = (None, world_a\<lparr>fs := (fs world_a)(''a.md'' := None),
                   docTable := (docTable world_a)(''a.md'' := None)\<rparr>)
   \<and> docTable (snd (RemoveDoc ''a.md'' world_a)) \<noteq> docTable world_a
   \<and> fs (snd (RemoveDoc ''a.md'' world_a)) ''a.md'' = None"
proof -
  have r: "RemoveFile ''a.md'' world_remove_fails = (Some (Failure ''remove''), world_a)"
    by (simp add: backend_defs world_remove_fails_def world_a_def)
  have h: "fs world_a ''a.md'' \<noteq> None \<and> faults world_a = []"
    by (simp add: world_a_def)
  note t1 = RemoveDoc_content_first [of "''a.md''" world_remove_fails]
  note t2 = RemoveDoc_content_first [of "''a.md''" world_a]
  from t1 r have 1: "RemoveDoc ''a.md'' world_remove_fails
       = (Some (Wrap ''failed to remove doc from file store'' (Failure ''remove'')), world_a)
     \<and> docTable world_a = docTable world_remove_fails \<and> fs world_a = fs world_remove_fails"
    by blast
  from t2 h have 2: "RemoveDoc ''a.md'' world_a
       = (None, world_a\<lparr>fs := (fs world_a)(''a.md'' := None),
                   docTable := (docTable world_a)(''a.md'' := None)\<rparr>)"
    by blast
  have 3: "docTable (snd (RemoveDoc ''a.md'' world_a)) \<noteq> docTable world_a"
    by (simp add: 2) (simp add: world_a_def fun_eq_iff)
  from t2 3 have "fs (snd (RemoveDoc ''a.md'' world_a)) ''a.md'' = None" by blast
  with r h 1 2 3 show ?thesis by simp
qed

subsection \<open>ListDocs with tags\<close>

lemma getItem_tag_world: "getItem_tag t w = (r, w1) \<Longrightarrow> w1 = w\<lparr>faults := tl (faults w)\<rparr>"
  by (auto simp: getItem_tag_def split: prod.splits option.splits dest: next_fault_eq)

lemma getItem_tag_Inr: "getItem_tag t w = (Inr tag, w1) \<Longrightarrow> tagTable w t = Some tag"
  by (auto simp: getItem_tag_def split: prod.splits option.splits dest!: next_fault_eq)

lemma tagPaths_loop_world:
  "tagPaths_loop isect paths tags w = (r, w1) \<Longrightarrow>
     docTable w1 = docTable w \<and> tagTable w1 = tagTable w \<and> fs w1 = fs w \<and> ti w1 = ti w
       \<and> clock w1 = clock w \<and> ticks w1 = ticks w"
proof (induction tags arbitrary: paths w)
  case Nil
  then show ?case by simp
next
  case (Cons t tags)
  show ?case
  proof (cases "getItem_tag t w")
    case (Pair r0 w0)
    then have w0: "w0 = w\<lparr>faults := tl (faults w)\<rparr>" by (rule getItem_tag_world)
    show ?thesis
    proof (cases r0)
      case (Inl err)
      with Pair Cons.prems w0 show ?thesis by auto
    next
      case (Inr tag)
      with Pair Cons.prems have
        "tagPaths_loop isect (if paths = None then Paths tag else isect paths (Paths tag)) tags w0
           = (r, w1)" by simp
      from Cons.IH [OF this] w0 show ?thesis by simp
    qed
  qed
qed

lemma listTaggedDocs_world:
  "listTaggedDocs isect tags w = (r, w1) \<Longrightarrow>
     docTable w1 = docTable w \<and> tagTable w1 = tagTable w \<and> fs w1 = fs w \<and> ti w1 = ti w
       \<and> clock w1 = clock w \<and> ticks w1 = ticks w"
proof -
  assume a: "listTaggedDocs isect tags w = (r, w1)"
  obtain r0 w0 where t: "tagPaths_loop isect None tags w = (r0, w0)"
    by (cases "tagPaths_loop isect None tags w")
  note w0 = tagPaths_loop_world [OF t]
  show ?thesis
  proof (cases r0)
    case (Inl err)
    with a t w0 show ?thesis by (auto simp: listTaggedDocs_def)
  next
    case (Inr paths)
    with a t have "listDocs_loop [] (elems paths) w0 = (r, w1)" by (simp add: listTaggedDocs_def)
    from listDocs_loop_world [OF this] w0 show ?thesis by simp
  qed
qed

lemma Search_world:
  "Search query w = (r, w1) \<Longrightarrow> w1 = w\<lparr>faults := tl (faults w)\<rparr>"
  by (auto simp: Search_def split: prod.splits option.splits dest!: next_fault_eq)

lemma ListDocs_world:
  "ListDocs isect query tags w = (r, w') \<Longrightarrow>
     docTable w' = docTable w \<and> tagTable w' = tagTable w \<and> fs w' = fs w"
proof -
  assume a: "ListDocs isect query tags w = (r, w')"
  obtain r0 w0 where s: "(if query \<noteq> '''' then Search query w else (Inr [], w)) = (r0, w0)"
    by (cases "if query \<noteq> '''' then Search query w else (Inr [], w)")
  then have w0: "docTable w0 = docTable w \<and> tagTable w0 = tagTable w \<and> fs w0 = fs w"
    by (auto split: if_splits dest!: Search_world)
  show ?thesis
  proof (cases r0)
    case (Inl err)
    with a s w0 show ?thesis by (auto simp: ListDocs_def)
  next
    case (Inr foundPaths)
    show ?thesis
    proof (cases "length tags = 0")
      case True
      with a s Inr have "listDocs_loop [] foundPaths w0 = (r, w')"
        by (simp add: ListDocs_def listDocs_def)
      from listDocs_loop_world [OF this] w0 show ?thesis by simp
    next
      case False
      obtain r1 w1 where l: "listTaggedDocs isect tags w0 = (r1, w1)"
        by (cases "listTaggedDocs isect tags w0")
      with a s Inr False have "w' = w1"
        by (auto simp: ListDocs_def split: sum.splits if_splits)
      with listTaggedDocs_world [OF l] w0 show ?thesis by simp
    qed
  qed
qed

text \<open>
  C4 fails on the code. In \<open>world_nil\<close> the record of the tag \<open>n\<close> lists no path
  and the record of the tag \<open>y\<close> lists \<open>a.md\<close>, so no document carries both tags.
  ListDocs with an empty query and the tags \<open>n\<close> and \<open>y\<close> returns the document
  \<open>a.md\<close>: after the fetch of \<open>n\<close> the slice \<open>paths\<close> is still nil, the test
  \<open>paths == nil\<close> takes the round of \<open>y\<close> for the first one, and the paths of
  \<open>y\<close> replace the intersection instead of being intersected with it. This holds
  whatever \<open>intersect\<close> computes, since it is never called.
\<close>

theorem ListDocs_nil_paths_tag:
  "tagTable world_nil ''n'' = Some tag_n \<and> elems (Paths tag_n) = []
   \<and> tagTable world_nil ''y'' = Some tag_y \<and> elems (Paths tag_y) = [''a.md'']
   \<and> ListDocs isect '''' [''n'', ''y''] world_nil = (Inr [doc_a], world_nil)"
  by (simp add: ListDocs_def listTaggedDocs_def getItem_tag_def getItem_doc_def next_fault_def
        world_nil_def world_a_def tag_n_def tag_y_def)

subsection \<open>TagDoc: the path set of a tag\<close>

lemma count_list_distinct: "distinct xs \<Longrightarrow> x \<in> set xs \<Longrightarrow> count_list xs x = 1"
  by (induction xs) (auto simp: count_list_0_iff)

lemma MarshalMap_world: "MarshalMap w = (r, w1) \<Longrightarrow> w1 = w\<lparr>faults := tl (faults w)\<rparr>"
  by (auto simp: MarshalMap_def dest: next_fault_eq)

lemma putItem_tag_cases:
  "putItem_tag tag w = (r, w1) \<Longrightarrow>
     (r \<noteq> None \<and> w1 = w\<lparr>faults := tl (faults w)\<rparr>)
     \<or> (r = None \<and> w1 = w\<lparr>faults := tl (faults w), tagTable := (tagTable w)(Tag tag \<mapsto> tag)\<rparr>)"
  by (auto simp: putItem_tag_def split: prod.splits option.splits dest!: next_fault_eq)

text \<open>One round of the loop of TagDoc, for a tag whose record was fetched.\<close>

lemma TagDoc_Cons:
  assumes "getItem_tag t w = (Inr tag, w0)"
  shows "TagDoc path (t # tags) w =
     (if contains (elems (Paths tag)) path then TagDoc path tags w0
      else (case MarshalMap w0 of
              (Some err, w2) \<Rightarrow> (Some err, w2)
            | (None, w2) \<Rightarrow>
                (case putItem_tag
                    ((if Tag tag = '''' then tag\<lparr>Tag := t\<rparr> else tag)
                       \<lparr>Paths := Some (elems (Paths tag) @ [path])\<rparr>) w2 of
                   (Some err, w3) \<Rightarrow> (Some err, w3)
                 | (None, w3) \<Rightarrow> TagDoc path tags w3)))"
  using assms by (simp add: Let_def split: prod.splits option.splits)

lemma TagDoc_world:
  "TagDoc path tags w = (r, w') \<Longrightarrow>
     docTable w' = docTable w \<and> fs w' = fs w \<and> (tags_distinct w \<longrightarrow> tags_distinct w')"
proof (induction tags arbitrary: w)
  case Nil
  then show ?case by simp
next
  case (Cons t tags)
  obtain r0 w0 where g: "getItem_tag t w = (r0, w0)" by (cases "getItem_tag t w")
  then have w0: "w0 = w\<lparr>faults := tl (faults w)\<rparr>" by (rule getItem_tag_world)
  show ?case
  proof (cases r0)
    case (Inl err)
    with g Cons.prems w0 show ?thesis by (auto simp: tags_distinct_def)
  next
    case (Inr tag)
    with g have gi: "getItem_tag t w = (Inr tag, w0)" by simp
    then have tag: "tagTable w t = Some tag" by (rule getItem_tag_Inr)
    note step = TagDoc_Cons [OF gi, of path tags]
    show ?thesis
    proof (cases "contains (elems (Paths tag)) path")
      case True
      with step Cons.prems have "TagDoc path tags w0 = (r, w')" by simp
      from Cons.IH [OF this] w0 show ?thesis by (simp add: tags_distinct_def)
    next
      case False
      obtain r1 w1 where m: "MarshalMap w0 = (r1, w1)" by (cases "MarshalMap w0")
      then have w1: "w1 = w0\<lparr>faults := tl (faults w0)\<rparr>" by (rule MarshalMap_world)
      show ?thesis
      proof (cases r1)
        case (Some err)
        with step False m Cons.prems have "w' = w1" by simp
        with w0 w1 show ?thesis by (simp add: tags_distinct_def)
      next
        case None
        let ?tag2 = "(if Tag tag = '''' then tag\<lparr>Tag := t\<rparr> else tag)
                       \<lparr>Paths := Some (elems (Paths tag) @ [path])\<rparr>"
        obtain r2 w2 where p: "putItem_tag ?tag2 w1 = (r2, w2)"
          by (cases "putItem_tag ?tag2 w1")
        have d2: "tags_distinct w \<longrightarrow> tags_distinct w2"
        proof
          assume d: "tags_distinct w"
          with tag have "distinct (elems (Paths tag))" by (simp add: tags_distinct_def)
          with False have "distinct (elems (Paths ?tag2))" by (simp add: contains_def)
          with putItem_tag_cases [OF p] d w0 w1 show "tags_distinct w2"
            by (auto simp: tags_distinct_def split: if_splits)
        qed
        from putItem_tag_cases [OF p] w0 w1
        have s2: "docTable w2 = docTable w \<and> fs w2 = fs w" by auto
        show ?thesis
        proof (cases r2)
          case (Some err)
          with step False m None p Cons.prems have "w' = w2" by simp
          with d2 s2 show ?thesis by simp
        next
          case None': None
          with step False m None p Cons.prems have "TagDoc path tags w2 = (r, w')" by simp
          from Cons.IH [OF this] d2 s2 show ?thesis by simp
        qed
      qed
    qed
  qed
qed

lemma TagDoc_once:
  assumes "wf_tags w" and "tags_distinct w" and "TagDoc path [t] w = (None, w1)"
  shows "\<exists>tag. tagTable w1 t = Some tag \<and> path \<in> set (elems (Paths tag))"
proof -
  obtain r0 w0 where g: "getItem_tag t w = (r0, w0)" by (cases "getItem_tag t w")
  then have w0: "w0 = w\<lparr>faults := tl (faults w)\<rparr>" by (rule getItem_tag_world)
  show ?thesis
  proof (cases r0)
    case (Inl err)
    with g assms(3) show ?thesis by simp
  next
    case (Inr tag)
    with g have gi: "getItem_tag t w = (Inr tag, w0)" by simp
    then have tag: "tagTable w t = Some tag" by (rule getItem_tag_Inr)
    with assms(1) have key: "Tag tag = t" by (simp add: wf_tags_def)
    note step = TagDoc_Cons [OF gi, of path "[]"]
    show ?thesis
    proof (cases "contains (elems (Paths tag)) path")
      case True
      with step assms(3) have "w1 = w0" by simp
      with w0 tag True show ?thesis by (simp add: contains_def)
    next
      case False
      let ?tag2 = "(if Tag tag = '''' then tag\<lparr>Tag := t\<rparr> else tag)
                       \<lparr>Paths := Some (elems (Paths tag) @ [path])\<rparr>"
      from key have key2: "Tag ?tag2 = t" by simp
      obtain r1 w1' where m: "MarshalMap w0 = (r1, w1')" by (cases "MarshalMap w0")
      obtain r2 w2 where p: "putItem_tag ?tag2 w1' = (r2, w2)"
        by (cases "putItem_tag ?tag2 w1'")
      from step False m p assms(3) have "r1 = None" "r2 = None" "w1 = w2"
        by (auto split: option.splits)
      with putItem_tag_cases [OF p] key2 have "tagTable w1 t = Some ?tag2"
        by auto
      then show ?thesis by simp
    qed
  qed
qed

lemma TagDoc_again:
  assumes "tagTable w t = Some tag" and "path \<in> set (elems (Paths tag))"
    and "TagDoc path [t] w = (r, w1)"
  shows "tagTable w1 = tagTable w"
proof -
  obtain r0 w0 where g: "getItem_tag t w = (r0, w0)" by (cases "getItem_tag t w")
  then have w0: "w0 = w\<lparr>faults := tl (faults w)\<rparr>" by (rule getItem_tag_world)
  show ?thesis
  proof (cases r0)
    case (Inl err)
    with g assms(3) w0 show ?thesis by auto
  next
    case (Inr tag')
    with g have gi: "getItem_tag t w = (Inr tag', w0)" by simp
    then have "tagTable w t = Some tag'" by (rule getItem_tag_Inr)
    with assms(1,2) have "contains (elems (Paths tag')) path" by (simp add: contains_def)
    with TagDoc_Cons [OF gi, of path "[]"] assms(3) w0 show ?thesis by auto
  qed
qed

text \<open>
  C7. Take a tag table whose records carry their keys and list no path twice. After any
  TagDoc call, whatever its outcome, no record lists a path twice. And when TagDoc of a
  path with one tag succeeds twice in a row, the record of the tag then lists the path
  exactly once, and the second call has left the tag table as the first one made it.
\<close>

theorem TagDoc_idempotent:
  assumes "wf_tags w" and "tags_distinct w"
  shows "tags_distinct (snd (TagDoc path tags w))
         \<and> (\<forall>w1 w2. TagDoc path [t] w = (None, w1) \<and> TagDoc path [t] w1 = (None, w2) \<longrightarrow>
               (\<exists>tag. tagTable w2 t = Some tag \<and> count_list (elems (Paths tag)) path = 1)
               \<and> tagTable w2 = tagTable w1)"
proof (intro conjI allI impI)
  obtain r w' where "TagDoc path tags w = (r, w')" by (cases "TagDoc path tags w")
  from TagDoc_world [OF this] assms(2) this show "tags_distinct (snd (TagDoc path tags w))"
    by simp
next
  fix w1 w2
  assume a: "TagDoc path [t] w = (None, w1) \<and> TagDoc path [t] w1 = (None, w2)"
  then have 1: "TagDoc path [t] w = (None, w1)" and 2: "TagDoc path [t] w1 = (None, w2)"
    by simp_all
  from TagDoc_once [OF assms 1] obtain tag where
    tag: "tagTable w1 t = Some tag" and mem: "path \<in> set (elems (Paths tag))" by blast
  from TagDoc_world [OF 1] assms(2) have "tags_distinct w1" by simp
  with tag have d: "distinct (elems (Paths tag))" by (simp add: tags_distinct_def)
  from TagDoc_again [OF tag mem 2] show same: "tagTable w2 = tagTable w1" .
  from d mem have "count_list (elems (Paths tag)) path = 1" by (rule count_list_distinct)
  with tag same show "\<exists>tag. tagTable w2 t = Some tag \<and> count_list (elems (Paths tag)) path = 1"
    by simp
qed

lemma TagDoc_x:
  "TagDoc ''a.md'' [''x''] world_tags = (None, world_tagged)"
  by (simp add: getItem_tag_def putItem_tag_def MarshalMap_def next_fault_def contains_def
        Let_def world_tags_def world_tagged_def world_a_def tag_x_def tag_x'_def tag_e_def
        fun_upd_twist)

lemma TagDoc_x':
  "TagDoc ''a.md'' [''x''] world_tagged = (None, world_tagged)"
  by (simp add: getItem_tag_def next_fault_def contains_def
        world_tagged_def world_a_def tag_x'_def)

text \<open>TagDoc of \<open>a.md\<close> with the tag \<open>x\<close>, twice, on \<open>world_tags\<close>.\<close>

theorem TagDoc_idempotent_witness:
  "wf_tags world_tags \<and> tags_distinct world_tags
   \<and> TagDoc ''a.md'' [''x''] world_tags = (None, world_tagged)
   \<and> TagDoc ''a.md'' [''x''] world_tagged = (None, world_tagged)
   \<and> tagTable world_tagged ''x'' = Some tag_x'
   \<and> count_list (elems (Paths tag_x')) ''a.md'' = 1
   \<and> tags_distinct (snd (TagDoc ''a.md'' [''x''] world_tags))"
proof -
  have wf: "wf_tags world_tags"
    by (auto simp: wf_tags_def world_tags_def tag_x_def tag_e_def split: if_splits)
  have d: "tags_distinct world_tags"
    by (auto simp: tags_distinct_def world_tags_def tag_x_def tag_e_def split: if_splits)
  have x: "tagTable world_tagged ''x'' = Some tag_x'" by (simp add: world_tagged_def)
  from TagDoc_idempotent [OF wf d, of "''a.md''" "[''x'']" "''x''"] TagDoc_x TagDoc_x'
  have "tags_distinct (snd (TagDoc ''a.md'' [''x''] world_tags))"
    and "\<exists>tag. tagTable world_tagged ''x'' = Some tag \<and> count_list (elems (Paths tag)) ''a.md'' = 1"
    by blast+
  with wf d x TagDoc_x TagDoc_x' show ?thesis by simp
qed

subsection \<open>The content field of the stored records\<close>

lemma PutDoc_docTable:
  "PutDoc doc w = (r, w') \<Longrightarrow>
     docTable w' = docTable w
     \<or> (\<exists>stored. docTable w' = (docTable w)(Path doc \<mapsto> stored) \<and> Content stored = '''')"
proof -
  assume a: "PutDoc doc w = (r, w')"
  show ?thesis
  proof (cases "Path doc = ''''")
    case True
    with a show ?thesis by (simp add: PutDoc_def)
  next
    case False
    obtain r0 w0 where g: "GetDoc (Path doc) w = (r0, w0)" by (cases "GetDoc (Path doc) w")
    then have w0: "docTable w0 = docTable w" by (simp add: GetDoc_world)
    show ?thesis
    proof (cases r0)
      case (Inl err)
      show ?thesis
      proof (cases "CheckDoesNotExist err")
        case True
        with a False g Inl have
          "PutDoc_store (doc\<lparr>CreatedAt := clock w0 (ticks w0)\<rparr>) (w0\<lparr>ticks := Suc (ticks w0)\<rparr>)
             = (r, w')"
          by (simp add: PutDoc_def time_Now_def)
        from PutDoc_store_docTable [OF this] w0 show ?thesis by auto
      next
        case False': False
        with a False g Inl w0 show ?thesis by (auto simp: PutDoc_def)
      qed
    next
      case (Inr existing)
      with a False g have "PutDoc_store doc w0 = (r, w')" by (simp add: PutDoc_def)
      from PutDoc_store_docTable [OF this] w0 show ?thesis by auto
    qed
  qed
qed

text \<open>
  C9. Every record of the document table that a PutDoc call changes is, after the call, a
  record with an empty content field. After a successful PutDoc the file store holds the
  content passed in under the path, and the record stored under the path has an empty
  content field: the content is written first and cleared before the metadata write. And
  when no record of the document table carries content, none does after PutDoc, GetDoc,
  ListDocs, TagDoc or RemoveDoc.
\<close>

theorem PutDoc_clears_content:
  "(\<forall>path'. docTable (snd (PutDoc doc w)) path' \<noteq> docTable w path' \<longrightarrow>
      (\<exists>stored. docTable (snd (PutDoc doc w)) path' = Some stored \<and> Content stored = ''''))
   \<and> (\<forall>w'. PutDoc doc w = (None, w') \<longrightarrow>
         fs w' (Path doc) = Some (Content doc)
         \<and> (\<exists>stored. docTable w' (Path doc) = Some stored \<and> Content stored = ''''))
   \<and> (no_content w \<longrightarrow>
         no_content (snd (PutDoc doc w)) \<and> no_content (snd (GetDoc path w))
         \<and> no_content (snd (ListDocs isect query tags w))
         \<and> no_content (snd (TagDoc path tags w)) \<and> no_content (snd (RemoveDoc path w)))"
proof (intro conjI allI impI)
  fix path'
  assume c: "docTable (snd (PutDoc doc w)) path' \<noteq> docTable w path'"
  obtain r w' where p: "PutDoc doc w = (r, w')" by (cases "PutDoc doc w")
  from PutDoc_docTable [OF p] c p
  show "\<exists>stored. docTable (snd (PutDoc doc w)) path' = Some stored \<and> Content stored = ''''"
    by (auto split: if_splits)
next
  fix w'
  assume p: "PutDoc doc w = (None, w')"
  from PutDoc_None(2) [OF p] show "fs w' (Path doc) = Some (Content doc)" .
  from PutDoc_None(3-5) [OF p]
  show "\<exists>stored. docTable w' (Path doc) = Some stored \<and> Content stored = ''''"
    by auto
next
  assume n: "no_content w"
  obtain r w' where p: "PutDoc doc w = (r, w')" by (cases "PutDoc doc w")
  from PutDoc_docTable [OF p] n p show "no_content (snd (PutDoc doc w))"
    by (auto simp: no_content_def split: if_splits)
next
  assume n: "no_content w"
  obtain r w' where "GetDoc path w = (r, w')" by (cases "GetDoc path w")
  from GetDoc_world [OF this] n this show "no_content (snd (GetDoc path w))"
    by (simp add: no_content_def)
next
  assume n: "no_content w"
  obtain r w' where "ListDocs isect query tags w = (r, w')"
    by (cases "ListDocs isect query tags w")
  from ListDocs_world [OF this] n this show "no_content (snd (ListDocs isect query tags w))"
    by (simp add: no_content_def)
next
  assume n: "no_content w"
  obtain r w' where "TagDoc path tags w = (r, w')" by (cases "TagDoc path tags w")
  from TagDoc_world [OF this] n this show "no_content (snd (TagDoc path tags w))"
    by (simp add: no_content_def)
next
  assume n: "no_content w"
  obtain r w' where "RemoveDoc path w = (r, w')" by (cases "RemoveDoc path w")
  from RemoveDoc_cases [OF this] n this show "no_content (snd (RemoveDoc path w))"
    by (auto simp: no_content_def split: if_splits)
qed

text \<open>PutDoc of \<open>b.md\<close>, whose content is \<open>text\<close>, on \<open>world_put\<close>.\<close>

theorem PutDoc_clears_content_witness:
  "no_content world_put \<and> no_content (snd (PutDoc doc_b world_put))
   \<and> PutDoc doc_b world_put = (None, snd (PutDoc doc_b world_put))
   \<and> docTable (snd (PutDoc doc_b world_put)) ''b.md'' \<noteq> docTable world_put ''b.md''
   \<and> map_option Content (docTable (snd (PutDoc doc_b world_put)) ''b.md'') = Some ''''
   \<and> fs (snd (PutDoc doc_b world_put)) ''b.md'' = Some ''text''
   \<and> Content doc_b = ''text''"
proof -
  have n: "no_content world_put"
    by (auto simp: no_content_def world_put_def world_a_def doc_a_def split: if_splits)
  have ok: "PutDoc doc_b world_put = (None, snd (PutDoc doc_b world_put))"
    by (simp add: PutDoc_b)
  have c: "docTable (snd (PutDoc doc_b world_put)) ''b.md'' \<noteq> docTable world_put ''b.md''"
    by (simp add: PutDoc_b) (simp add: world_put_def world_a_def)
  have b: "Path doc_b = ''b.md''" "Content doc_b = ''text''" by (simp_all add: doc_b_def)
  note t = PutDoc_clears_content [of doc_b world_put "''b.md''" intersect "''''" "[]"]
  from t n have 1: "no_content (snd (PutDoc doc_b world_put))" by blast
  from t c obtain stored where
    "docTable (snd (PutDoc doc_b world_put)) ''b.md'' = Some stored" "Content stored = ''''"
    by blast
  then have 2: "map_option Content (docTable (snd (PutDoc doc_b world_put)) ''b.md'') = Some ''''"
    by simp
  from t ok b have 3: "fs (snd (PutDoc doc_b world_put)) ''b.md'' = Some ''text''" by metis
  from n ok c b 1 2 3 show ?thesis by simp
qed

end
